theory Spec2Isabelle
  imports Complex_Main
begin

section \<open>Numbers and data model\<close>

text \<open>
  A JavaScript number is modelled as an exact real or the value \<open>NaN\<close> that
  \<open>parseFloat\<close> returns on a malformed token. Rounding of IEEE doubles, the
  infinities and the sign of zero are not modelled: arithmetic on \<open>Num\<close> is exact.
  Structural equality on \<open>jsnumber\<close> identifies \<open>NaN\<close> with itself, which is how
  the program compares numbers once they are printed into a map key.
\<close>

datatype jsnumber = NaN | Num real

fun jadd :: "jsnumber \<Rightarrow> jsnumber \<Rightarrow> jsnumber" where
  "jadd (Num a) (Num b) = Num (a + b)"
| "jadd _ _ = NaN"

fun jsub :: "jsnumber \<Rightarrow> jsnumber \<Rightarrow> jsnumber" where
  "jsub (Num a) (Num b) = Num (a - b)"
| "jsub _ _ = NaN"

fun jmul :: "jsnumber \<Rightarrow> jsnumber \<Rightarrow> jsnumber" where
  "jmul (Num a) (Num b) = Num (a * b)"
| "jmul _ _ = NaN"

fun Math_abs :: "jsnumber \<Rightarrow> jsnumber" where
  "Math_abs (Num a) = Num \<bar>a\<bar>"
| "Math_abs NaN = NaN"

text \<open>The comparison \<open>a > b\<close>; it is false as soon as one side is \<open>NaN\<close>.\<close>

fun jgt :: "jsnumber \<Rightarrow> jsnumber \<Rightarrow> bool" where
  "jgt (Num a) (Num b) = (b < a)"
| "jgt _ _ = False"

text \<open>\<open>Math.round\<close>: the nearest integer, a tie going towards plus infinity.\<close>

fun Math_round :: "jsnumber \<Rightarrow> jsnumber" where
  "Math_round (Num a) = Num (of_int \<lfloor>a + 1 / 2\<rfloor>)"
| "Math_round NaN = NaN"

record point =
  x :: jsnumber
  y :: jsnumber

record pathCommand =
  type :: string
  points :: "point list"
  isRelative :: bool

record junction =
  point :: point
  traceIds :: "string list"

text \<open>
  The raw trace of the extractor, and the analysed trace \<open>Trace & {...}\<close> that
  \<open>analyzeTrace\<close> returns by spreading the raw fields. Optional fields are options.
  The field \<open>id\<close> is written \<open>id'\<close>.
\<close>

record trace =
  id' :: string
  pathData :: string
  width :: jsnumber
  stroke :: "string option"
  fill :: "string option"
  layer :: "string option"
  transform :: "string option"

record analyzedTrace = trace +
  commands :: "pathCommand list option"
  tpoints :: "point list option"
  startPoint :: "point option"
  endPoint :: "point option"
  connectedTraces :: "string list option"
  direction :: "string option"

record parserOptions =
  verbose :: "bool option"
  minJunctionDistance :: "jsnumber option"

section \<open>Command parser\<close>

definition isCommandLetter :: "char \<Rightarrow> bool" where
  "isCommandLetter c = (c \<in> set ''MLHVCSQTAZmlhvcsqtaz'')"

text \<open>White space of \<open>\s\<close> and \<open>trim\<close>, restricted to ASCII.\<close>

definition isSpace :: "char \<Rightarrow> bool" where
  "isSpace c = (c \<in> set [CHR '' '', CHR 0x09, CHR 0x0A, CHR 0x0B, CHR 0x0C, CHR 0x0D])"

definition isSeparator :: "char \<Rightarrow> bool" where
  "isSeparator c = (isSpace c \<or> c = CHR '','')"

definition toUpperCase :: "string \<Rightarrow> string" where
  "toUpperCase s =
     map (\<lambda>c. case map_of (zip ''abcdefghijklmnopqrstuvwxyz'' ''ABCDEFGHIJKLMNOPQRSTUVWXYZ'') c of
                 Some u \<Rightarrow> u | None \<Rightarrow> c) s"

definition toLowerCase :: "string \<Rightarrow> string" where
  "toLowerCase s =
     map (\<lambda>c. case map_of (zip ''ABCDEFGHIJKLMNOPQRSTUVWXYZ'' ''abcdefghijklmnopqrstuvwxyz'') c of
                 Some l \<Rightarrow> l | None \<Rightarrow> c) s"

subsection \<open>parseFloat\<close>

definition digitValue :: "char \<Rightarrow> nat option" where
  "digitValue c = map_of (zip ''0123456789'' [0, 1, 2, 3, 4, 5, 6, 7, 8, 9]) c"

definition isDigit :: "char \<Rightarrow> bool" where
  "isDigit c = (digitValue c \<noteq> None)"

definition digitsValue :: "string \<Rightarrow> nat" where
  "digitsValue ds = foldl (\<lambda>acc c. 10 * acc + the (digitValue c)) 0 ds"

text \<open>
  The exponent part \<open>[eE][+-]?digits\<close> of a decimal literal; it counts only when at
  least one digit follows.
\<close>

definition exponentPart :: "string \<Rightarrow> int" where
  "exponentPart s =
     (if s \<noteq> [] \<and> (hd s = CHR ''e'' \<or> hd s = CHR ''E'') then
        (let r = tl s;
             neg = (r \<noteq> [] \<and> hd r = CHR ''-'');
             r' = (if r \<noteq> [] \<and> (hd r = CHR ''-'' \<or> hd r = CHR ''+'') then tl r else r);
             ds = takeWhile isDigit r'
         in if ds = [] then 0 else if neg then - int (digitsValue ds) else int (digitsValue ds))
      else 0)"

definition scale10 :: "real \<Rightarrow> int \<Rightarrow> real" where
  "scale10 m e = (if 0 \<le> e then m * 10 ^ nat e else m / 10 ^ nat (- e))"

text \<open>
  \<open>parseFloat\<close> reads the longest prefix that is a decimal literal, after leading
  white space, and returns \<open>NaN\<close> when there is none. The literal \<open>Infinity\<close> is left
  out: it contains the command letter \<open>t\<close>, so no parameter token holds it.
\<close>

definition parseFloat :: "string \<Rightarrow> jsnumber" where
  "parseFloat s =
     (let s1 = dropWhile isSpace s;
          neg = (s1 \<noteq> [] \<and> hd s1 = CHR ''-'');
          s2 = (if s1 \<noteq> [] \<and> (hd s1 = CHR ''-'' \<or> hd s1 = CHR ''+'') then tl s1 else s1);
          ip = takeWhile isDigit s2;
          s3 = dropWhile isDigit s2;
          hasDot = (s3 \<noteq> [] \<and> hd s3 = CHR ''.'');
          fp = (if hasDot then takeWhile isDigit (tl s3) else []);
          s4 = (if hasDot then dropWhile isDigit (tl s3) else s3)
      in if ip = [] \<and> fp = [] then NaN
         else (let m = real (digitsValue (ip @ fp)) / 10 ^ length fp;
                   v = scale10 m (exponentPart s4)
               in Num (if neg then - v else v)))"

subsection \<open>Splitting the parameter string\<close>

definition trim :: "string \<Rightarrow> string" where
  "trim s = rev (dropWhile isSpace (rev (dropWhile isSpace s)))"

text \<open>
  \<open>split(/[\s,]+/)\<close>: the pieces between maximal runs of separators, the empty
  pieces at the two ends included. \<open>cur\<close> holds the current piece, reversed.
\<close>

function splitSeparators :: "string \<Rightarrow> string \<Rightarrow> string list" where
  "splitSeparators cur [] = [rev cur]"
| "splitSeparators cur (c # cs) =
     (if isSeparator c then rev cur # splitSeparators [] (dropWhile isSeparator cs)
      else splitSeparators (c # cur) cs)"
  by pat_completeness auto
termination
  by (relation "measure (\<lambda>(cur, s). length s)") (auto simp: length_dropWhile_le less_Suc_eq_le)

definition parseParams :: "string \<Rightarrow> jsnumber list" where
  "parseParams paramsStr =
     map parseFloat (filter (\<lambda>p. p \<noteq> []) (splitSeparators [] (trim paramsStr)))"

subsection \<open>parsePathCommands\<close>

text \<open>The loop of \<open>M\<close> and \<open>L\<close>: pairs of parameters, an unpaired last one dropped.\<close>

fun pairPoints :: "jsnumber list \<Rightarrow> point list" where
  "pairPoints (a # b # ps) = \<lparr>x = a, y = b\<rparr> # pairPoints ps"
| "pairPoints _ = []"

definition parseCommand :: "char \<Rightarrow> string \<Rightarrow> pathCommand" where
  "parseCommand commandType paramsStr =
     (let isRel = (toLowerCase [commandType] = [commandType]);
          params = parseParams paramsStr;
          u = toUpperCase [commandType];
          pts = (if u = ''M'' \<or> u = ''L'' then pairPoints params
                 else if u = ''H'' then map (\<lambda>p. \<lparr>x = p, y = Num 0\<rparr>) params
                 else if u = ''V'' then map (\<lambda>p. \<lparr>x = Num 0, y = p\<rparr>) params
                 else [])
      in \<lparr>type = [commandType], points = pts, isRelative = isRel\<rparr>)"

text \<open>
  The \<open>exec\<close> loop of the global regular expression: the next match starts at the
  next command letter and takes every following character up to the letter after it;
  characters before the first letter are skipped.
\<close>

fun parsePathCommands :: "string \<Rightarrow> pathCommand list" where
  "parsePathCommands [] = []"
| "parsePathCommands (c # cs) =
     (if isCommandLetter c
      then parseCommand c (takeWhile (\<lambda>d. \<not> isCommandLetter d) cs) # parsePathCommands cs
      else parsePathCommands cs)"

section \<open>Coordinate resolver\<close>

text \<open>The four variables that \<open>convertToAbsoluteCoordinates\<close> carries across commands.\<close>

record cursorState =
  currentX :: jsnumber
  currentY :: jsnumber
  subpathStartX :: jsnumber
  subpathStartY :: jsnumber

definition initialState :: cursorState where
  "initialState = \<lparr>currentX = Num 0, currentY = Num 0, subpathStartX = Num 0, subpathStartY = Num 0\<rparr>"

text \<open>
  The loop of each command letter, on the points still to visit; it returns the points
  pushed to the result and the variables after the loop. \<open>i\<close> is the loop index of
  the \<open>M\<close> case.
\<close>

fun moveToLoop :: "bool \<Rightarrow> nat \<Rightarrow> point list \<Rightarrow> cursorState \<Rightarrow> point list \<times> cursorState" where
  "moveToLoop rel i [] st = ([], st)"
| "moveToLoop rel i (p # ps) st =
     (let nx = (if rel then jadd (currentX st) (x p) else x p);
          ny = (if rel then jadd (currentY st) (y p) else y p);
          st1 = st\<lparr>currentX := nx, currentY := ny\<rparr>;
          st2 = (if i = 0
                 then st1\<lparr>subpathStartX := currentX st1, subpathStartY := currentY st1\<rparr>
                 else st1);
          r = moveToLoop rel (Suc i) ps st2
      in (\<lparr>x = nx, y = ny\<rparr> # fst r, snd r))"

fun lineToLoop :: "bool \<Rightarrow> point list \<Rightarrow> cursorState \<Rightarrow> point list \<times> cursorState" where
  "lineToLoop rel [] st = ([], st)"
| "lineToLoop rel (p # ps) st =
     (let nx = (if rel then jadd (currentX st) (x p) else x p);
          ny = (if rel then jadd (currentY st) (y p) else y p);
          r = lineToLoop rel ps (st\<lparr>currentX := nx, currentY := ny\<rparr>)
      in (\<lparr>x = nx, y = ny\<rparr> # fst r, snd r))"

fun horizontalLoop :: "bool \<Rightarrow> point list \<Rightarrow> cursorState \<Rightarrow> point list \<times> cursorState" where
  "horizontalLoop rel [] st = ([], st)"
| "horizontalLoop rel (p # ps) st =
     (let nx = (if rel then jadd (currentX st) (x p) else x p);
          r = horizontalLoop rel ps (st\<lparr>currentX := nx\<rparr>)
      in (\<lparr>x = nx, y = currentY st\<rparr> # fst r, snd r))"

fun verticalLoop :: "bool \<Rightarrow> point list \<Rightarrow> cursorState \<Rightarrow> point list \<times> cursorState" where
  "verticalLoop rel [] st = ([], st)"
| "verticalLoop rel (p # ps) st =
     (let ny = (if rel then jadd (currentY st) (y p) else y p);
          r = verticalLoop rel ps (st\<lparr>currentY := ny\<rparr>)
      in (\<lparr>x = currentX st, y = ny\<rparr> # fst r, snd r))"

text \<open>The body of the \<open>map\<close> callback: the \<open>switch\<close> on the upper-cased letter.\<close>

definition convertCommand :: "cursorState \<Rightarrow> pathCommand \<Rightarrow> pathCommand \<times> cursorState" where
  "convertCommand st cmd =
     (let u = toUpperCase (type cmd);
          r = (if u = ''M'' then moveToLoop (isRelative cmd) 0 (points cmd) st
               else if u = ''L'' then lineToLoop (isRelative cmd) (points cmd) st
               else if u = ''H'' then horizontalLoop (isRelative cmd) (points cmd) st
               else if u = ''V'' then verticalLoop (isRelative cmd) (points cmd) st
               else if u = ''Z'' then
                 ([\<lparr>x = subpathStartX st, y = subpathStartY st\<rparr>],
                  st\<lparr>currentX := subpathStartX st, currentY := subpathStartY st\<rparr>)
               else ([], st))
      in (\<lparr>type = type cmd, points = fst r, isRelative = False\<rparr>, snd r))"

fun convertFrom :: "cursorState \<Rightarrow> pathCommand list \<Rightarrow> pathCommand list \<times> cursorState" where
  "convertFrom st [] = ([], st)"
| "convertFrom st (cmd # cmds) =
     (let r = convertCommand st cmd;
          rs = convertFrom (snd r) cmds
      in (fst r # fst rs, snd rs))"

definition convertToAbsoluteCoordinates :: "pathCommand list \<Rightarrow> pathCommand list" where
  "convertToAbsoluteCoordinates cmds = fst (convertFrom initialState cmds)"

definition getPointsFromCommands :: "pathCommand list \<Rightarrow> point list" where
  "getPointsFromCommands cmds = foldl (\<lambda>pts cmd. pts @ points cmd) [] cmds"

section \<open>Trace analyzer\<close>

definition analyzeTrace :: "trace \<Rightarrow> analyzedTrace" where
  "analyzeTrace t =
     (let cmds = parsePathCommands (pathData t);
          absoluteCommands = convertToAbsoluteCoordinates cmds;
          pts = getPointsFromCommands absoluteCommands;
          analyzed = \<lparr>id' = id' t, pathData = pathData t, width = width t, stroke = stroke t,
                      fill = fill t, layer = layer t, transform = transform t,
                      commands = Some absoluteCommands,
                      tpoints = Some pts,
                      startPoint = (if length pts > 0 then Some (hd pts) else None),
                      endPoint = (if length pts > 0 then Some (last pts) else None),
                      connectedTraces = Some [],
                      direction = Some ''unknown''\<rparr>
      in if length pts \<ge> 2 then
           (case (startPoint analyzed, endPoint analyzed) of
              (Some start, Some en) \<Rightarrow>
                (let dx = Math_abs (jsub (x en) (x start));
                     dy = Math_abs (jsub (y en) (y start))
                 in if jgt dx (jmul dy (Num 2)) then analyzed\<lparr>direction := Some ''horizontal''\<rparr>
                    else if jgt dy (jmul dx (Num 2)) then analyzed\<lparr>direction := Some ''vertical''\<rparr>
                    else analyzed\<lparr>direction := Some ''diagonal''\<rparr>)
            | _ \<Rightarrow> analyzed)
         else analyzed)"

section \<open>Junction and connectivity builder\<close>

text \<open>
  \<open>options.minJunctionDistance || 0.1\<close>: an absent value, \<open>0\<close> and \<open>NaN\<close> are falsy
  and give the default; every other number, a negative one included, is kept.
\<close>

definition minDistanceOf :: "parserOptions \<Rightarrow> jsnumber" where
  "minDistanceOf options =
     (case minJunctionDistance options of
        None \<Rightarrow> Num (1 / 10)
      | Some NaN \<Rightarrow> Num (1 / 10)
      | Some (Num d) \<Rightarrow> if d = 0 then Num (1 / 10) else Num d)"

text \<open>
  Division; the divisor \<open>minDistance\<close> is never zero, so the quotient by zero (an
  infinity, which the number model lacks) is not reached and is written \<open>NaN\<close>.
\<close>

fun jdiv :: "jsnumber \<Rightarrow> jsnumber \<Rightarrow> jsnumber" where
  "jdiv (Num a) (Num b) = (if b = 0 then NaN else Num (a / b))"
| "jdiv _ _ = NaN"

text \<open>
  The key string \<open>`${Math.round(..)},${Math.round(..)}`\<close> is modelled by the pair of
  rounded numbers that it prints: printing is injective on them, and \<open>parseFloat\<close>
  of each printed half gives the rounded number back.
\<close>

type_synonym bucketKey = "jsnumber \<times> jsnumber"

definition keyOf :: "jsnumber \<Rightarrow> point \<Rightarrow> bucketKey" where
  "keyOf minDistance p = (Math_round (jdiv (x p) minDistance), Math_round (jdiv (y p) minDistance))"

text \<open>
  The \<open>Map\<close> from keys to id arrays, in insertion order. \<open>pointMapPush\<close> is
  \<open>if (!pointMap.has(k)) pointMap.set(k, []); pointMap.get(k).push(v)\<close>.
\<close>

type_synonym pointMap = "(bucketKey \<times> string list) list"

fun pointMapPush :: "bucketKey \<Rightarrow> string \<Rightarrow> pointMap \<Rightarrow> pointMap" where
  "pointMapPush k v [] = [(k, [v])]"
| "pointMapPush k v ((k', vs) # m) =
     (if k' = k then (k', vs @ [v]) # m else (k', vs) # pointMapPush k v m)"

definition addEndpoints :: "jsnumber \<Rightarrow> pointMap \<Rightarrow> analyzedTrace \<Rightarrow> pointMap" where
  "addEndpoints minDistance m t =
     (let m1 = (case startPoint t of
                  Some p \<Rightarrow> pointMapPush (keyOf minDistance p) (id' t) m
                | None \<Rightarrow> m)
      in case endPoint t of
           Some p \<Rightarrow> pointMapPush (keyOf minDistance p) (id' t) m1
         | None \<Rightarrow> m1)"

text \<open>\<open>[...new Set(ids)]\<close>: the first occurrence of each id, in order.\<close>

definition newSet :: "string list \<Rightarrow> string list" where
  "newSet ids = foldl (\<lambda>s v. if v \<in> set s then s else s @ [v]) [] ids"

definition findJunctions :: "analyzedTrace list \<Rightarrow> parserOptions \<Rightarrow> junction list" where
  "findJunctions analyzedTraces options =
     (let minDistance = minDistanceOf options;
          pm = foldl (addEndpoints minDistance) [] analyzedTraces
      in map (\<lambda>(key, ids).
                \<lparr>point = \<lparr>x = jmul (fst key) minDistance, y = jmul (snd key) minDistance\<rparr>,
                 traceIds = newSet ids\<rparr>)
             (filter (\<lambda>(key, ids). length ids > 1) pm))"

text \<open>
  \<open>updateTraceConnectivity\<close> mutates the trace objects of the array; the model
  returns the array after the call. The elements are distinct objects, as
  \<open>analyzeTrace\<close> creates them. \<open>pushConnected id1 id2\<close> is the body of the innermost
  callback once \<open>id1 !== id2\<close>: \<open>find\<close> takes the first trace with id \<open>id1\<close>.
\<close>

definition initConnected :: "analyzedTrace \<Rightarrow> analyzedTrace" where
  "initConnected t =
     (case connectedTraces t of None \<Rightarrow> t\<lparr>connectedTraces := Some []\<rparr> | Some cs \<Rightarrow> t)"

fun pushConnected :: "string \<Rightarrow> string \<Rightarrow> analyzedTrace list \<Rightarrow> analyzedTrace list" where
  "pushConnected id1 id2 [] = []"
| "pushConnected id1 id2 (t # ts) =
     (if id' t = id1 then
        (case connectedTraces t of
           Some cs \<Rightarrow> if id2 \<in> set cs then t # ts
                      else t\<lparr>connectedTraces := Some (cs @ [id2])\<rparr> # ts
         | None \<Rightarrow> t # ts)
      else t # pushConnected id1 id2 ts)"

definition connectPair :: "analyzedTrace list \<Rightarrow> string \<times> string \<Rightarrow> analyzedTrace list" where
  "connectPair ts p = (if fst p \<noteq> snd p then pushConnected (fst p) (snd p) ts else ts)"

definition connectJunction :: "analyzedTrace list \<Rightarrow> junction \<Rightarrow> analyzedTrace list" where
  "connectJunction ts j =
     foldl (\<lambda>ts1 id1. foldl (\<lambda>ts2 id2. connectPair ts2 (id1, id2)) ts1 (traceIds j))
           ts (traceIds j)"

definition updateTraceConnectivity :: "analyzedTrace list \<Rightarrow> junction list \<Rightarrow> analyzedTrace list" where
  "updateTraceConnectivity analyzedTraces junctions =
     foldl connectJunction (map initConnected analyzedTraces) junctions"


section \<open>Notions used in the statements\<close>

text \<open>The flattened absolute points of a raw trace, as \<open>analyzeTrace\<close> computes them.\<close>

definition tracePoints :: "trace \<Rightarrow> point list" where
  "tracePoints t =
     getPointsFromCommands (convertToAbsoluteCoordinates (parsePathCommands (pathData t)))"

text \<open>The direction test of \<open>analyzeTrace\<close> on a start and an end point.\<close>

definition classify :: "point \<Rightarrow> point \<Rightarrow> string" where
  "classify s e =
     (let dx = Math_abs (jsub (x e) (x s));
          dy = Math_abs (jsub (y e) (y s))
      in if jgt dx (jmul dy (Num 2)) then ''horizontal''
         else if jgt dy (jmul dx (Num 2)) then ''vertical''
         else ''diagonal'')"

definition rawTrace :: "string \<Rightarrow> string \<Rightarrow> trace" where
  "rawTrace i d = \<lparr>id' = i, pathData = d, width = Num 1, stroke = None, fill = None,
                   layer = None, transform = None\<rparr>"

definition defaultOptions :: parserOptions where
  "defaultOptions = \<lparr>verbose = None, minJunctionDistance = None\<rparr>"

text \<open>The resolver's cursor and subpath start as points, and the initial cursor.\<close>

definition origin :: point where
  "origin = \<lparr>x = Num 0, y = Num 0\<rparr>"

definition cursorPoint :: "cursorState \<Rightarrow> point" where
  "cursorPoint st = \<lparr>x = currentX st, y = currentY st\<rparr>"

definition subpathStartPoint :: "cursorState \<Rightarrow> point" where
  "subpathStartPoint st = \<lparr>x = subpathStartX st, y = subpathStartY st\<rparr>"

text \<open>
  The first resolved point of the most recent MoveTo among resolved commands, read
  from left to right, or \<open>d\<close> when there is none. A MoveTo without points has no
  first point and is passed over.
\<close>

definition isMoveTo :: "pathCommand \<Rightarrow> bool" where
  "isMoveTo c = (toUpperCase (type c) = ''M'')"

definition moveToStartFrom :: "point \<Rightarrow> pathCommand list \<Rightarrow> point" where
  "moveToStartFrom d resolved =
     foldl (\<lambda>s c. if isMoveTo c \<and> points c \<noteq> [] then hd (points c) else s) d resolved"

text \<open>A command whose letter is one of C, S, Q, T, A in either case, and its resolved form.\<close>

definition unsupported :: "pathCommand \<Rightarrow> bool" where
  "unsupported c = (toUpperCase (type c) \<in> set [''C'', ''S'', ''Q'', ''T'', ''A''])"

definition emptyResult :: "pathCommand \<Rightarrow> pathCommand" where
  "emptyResult c = \<lparr>type = type c, points = [], isRelative = False\<rparr>"











text \<open>
  The connectivity list of a trace, an absent one read as empty; symmetry of
  connectivity over the traces of a sequence; absence of duplicates.
\<close>

definition connectedOf :: "analyzedTrace \<Rightarrow> string list" where
  "connectedOf t = (case connectedTraces t of None \<Rightarrow> [] | Some cs \<Rightarrow> cs)"

definition symmetricConnectivity :: "analyzedTrace list \<Rightarrow> bool" where
  "symmetricConnectivity ts =
     (\<forall>A\<in>set ts. \<forall>B\<in>set ts. (id' A \<in> set (connectedOf B)) = (id' B \<in> set (connectedOf A)))"

definition duplicateFree :: "analyzedTrace list \<Rightarrow> bool" where
  "duplicateFree ts = (\<forall>A\<in>set ts. distinct (connectedOf A))"

text \<open>
  What \<open>find\<close> and the \<open>includes\<close> test of \<open>updateTraceConnectivity\<close> see: the
  connectivity list of the first trace with a given id.
\<close>

fun lookupConnected :: "string \<Rightarrow> analyzedTrace list \<Rightarrow> string list option" where
  "lookupConnected a [] = None"
| "lookupConnected a (t # ts) = (if id' t = a then connectedTraces t else lookupConnected a ts)"

text \<open>
  \<open>appendNew cs bs\<close> pushes the ids \<open>bs\<close> in turn, each only if not yet included;
  \<open>partners c ps\<close> are the second components of the pairs of \<open>ps\<close> that start with
  \<open>c\<close> and join two different ids; \<open>junctionPairs\<close> lists the pairs (id1, id2) in
  the order in which the three nested \<open>forEach\<close> loops visit them.
\<close>

definition appendNew :: "string list \<Rightarrow> string list \<Rightarrow> string list" where
  "appendNew cs bs = foldl (\<lambda>cs b. if b \<in> set cs then cs else cs @ [b]) cs bs"

definition partners :: "string \<Rightarrow> (string \<times> string) list \<Rightarrow> string list" where
  "partners c ps = map snd (filter (\<lambda>p. fst p = c \<and> fst p \<noteq> snd p) ps)"

definition junctionPairs :: "junction list \<Rightarrow> (string \<times> string) list" where
  "junctionPairs js = concat (map (\<lambda>j. List.product (traceIds j) (traceIds j)) js)"

text \<open>Every trace has a connectivity list; the fields that \<open>findJunctions\<close> reads.\<close>

definition allDefined :: "analyzedTrace list \<Rightarrow> bool" where
  "allDefined ts = list_all (\<lambda>t. connectedTraces t \<noteq> None) ts"

definition endpointsView :: "analyzedTrace \<Rightarrow> string \<times> point option \<times> point option" where
  "endpointsView t = (id' t, startPoint t, endPoint t)"

section \<open>The analyzer's fields\<close>

lemma analyzeTrace_tpoints: "tpoints (analyzeTrace t) = Some (tracePoints t)"
  by (simp add: analyzeTrace_def tracePoints_def Let_def)

lemma analyzeTrace_startPoint:
  "startPoint (analyzeTrace t) = (if tracePoints t = [] then None else Some (hd (tracePoints t)))"
  by (simp add: analyzeTrace_def tracePoints_def Let_def)

lemma analyzeTrace_endPoint:
  "endPoint (analyzeTrace t) = (if tracePoints t = [] then None else Some (last (tracePoints t)))"
  by (simp add: analyzeTrace_def tracePoints_def Let_def)

lemma analyzeTrace_direction:
  "direction (analyzeTrace t) =
     Some (if 2 \<le> length (tracePoints t)
           then classify (hd (tracePoints t)) (last (tracePoints t)) else ''unknown'')"
  by (auto simp add: analyzeTrace_def tracePoints_def Let_def classify_def)

lemma analyzeTrace_connectedTraces: "connectedTraces (analyzeTrace t) = Some []"
  by (simp add: analyzeTrace_def Let_def)

lemma analyzeTrace_id: "id' (analyzeTrace t) = id' t"
  by (simp add: analyzeTrace_def Let_def)

lemma jgt_abs_double: "\<not> jgt (Math_abs a) (jmul (Math_abs a) (Num 2))"
  by (cases a) simp_all

lemma classify_tie:
  "Math_abs (jsub (x e) (x s)) = Math_abs (jsub (y e) (y s)) \<Longrightarrow> classify s e = ''diagonal''"
  using jgt_abs_double[of "jsub (y e) (y s)"] by (simp add: classify_def Let_def)

section \<open>Junctions of a single trace\<close>

text \<open>
  C1. Every junction is meant to join at least two different traces. The length test
  of \<open>findJunctions\<close> runs on the id array before its duplicates are removed, so a
  closed path, whose start and end fall in one bucket, gives a junction of its own:
  the trace \<open>M0,0 L10,0 L10,10 Z\<close> alone yields a junction whose \<open>traceIds\<close> has
  the single element \<open>t1\<close>.
\<close>

theorem C1_closed_path_alone_yields_junction:
  "findJunctions [analyzeTrace (rawTrace ''t1'' ''M0,0 L10,0 L10,10 Z'')] defaultOptions
     = [\<lparr>point = \<lparr>x = Num 0, y = Num 0\<rparr>, traceIds = [''t1'']\<rparr>]"
  by code_simp

section \<open>Direction of a trace\<close>

text \<open>
  C8. The trace \<open>M0,0 L10,0 L10,10\<close> has the points (0,0), (10,0), (10,10), starts at
  (0,0), ends at (10,10) and is diagonal. For every trace with at least two points whose
  start-to-end displacement has equal absolute components, neither threshold test
  holds and the direction is diagonal.
\<close>

theorem C8_diagonal_on_tie:
  "(let a = analyzeTrace (rawTrace ''t1'' ''M0,0 L10,0 L10,10'')
    in tpoints a = Some [\<lparr>x = Num 0, y = Num 0\<rparr>, \<lparr>x = Num 10, y = Num 0\<rparr>,
                         \<lparr>x = Num 10, y = Num 10\<rparr>]
       \<and> startPoint a = Some \<lparr>x = Num 0, y = Num 0\<rparr>
       \<and> endPoint a = Some \<lparr>x = Num 10, y = Num 10\<rparr>
       \<and> direction a = Some ''diagonal'')
   \<and> (\<forall>t pts s e.
         tpoints (analyzeTrace t) = Some pts \<and> 2 \<le> length pts
         \<and> startPoint (analyzeTrace t) = Some s \<and> endPoint (analyzeTrace t) = Some e
         \<and> Math_abs (jsub (x e) (x s)) = Math_abs (jsub (y e) (y s))
         \<longrightarrow> \<not> jgt (Math_abs (jsub (x e) (x s))) (jmul (Math_abs (jsub (y e) (y s))) (Num 2))
             \<and> \<not> jgt (Math_abs (jsub (y e) (y s))) (jmul (Math_abs (jsub (x e) (x s))) (Num 2))
             \<and> direction (analyzeTrace t) = Some ''diagonal'')"
proof (intro conjI allI impI)
  show "let a = analyzeTrace (rawTrace ''t1'' ''M0,0 L10,0 L10,10'')
        in tpoints a = Some [\<lparr>x = Num 0, y = Num 0\<rparr>, \<lparr>x = Num 10, y = Num 0\<rparr>,
                             \<lparr>x = Num 10, y = Num 10\<rparr>]
           \<and> startPoint a = Some \<lparr>x = Num 0, y = Num 0\<rparr>
           \<and> endPoint a = Some \<lparr>x = Num 10, y = Num 10\<rparr>
           \<and> direction a = Some ''diagonal''"
    by code_simp
next
  fix t pts s e
  assume h: "tpoints (analyzeTrace t) = Some pts \<and> 2 \<le> length pts
         \<and> startPoint (analyzeTrace t) = Some s \<and> endPoint (analyzeTrace t) = Some e
         \<and> Math_abs (jsub (x e) (x s)) = Math_abs (jsub (y e) (y s))"
  have tie: "Math_abs (jsub (x e) (x s)) = Math_abs (jsub (y e) (y s))"
    using h by simp
  show "\<not> jgt (Math_abs (jsub (x e) (x s))) (jmul (Math_abs (jsub (y e) (y s))) (Num 2))"
    using jgt_abs_double[of "jsub (y e) (y s)"] tie by simp
  show "\<not> jgt (Math_abs (jsub (y e) (y s))) (jmul (Math_abs (jsub (x e) (x s))) (Num 2))"
    using jgt_abs_double[of "jsub (y e) (y s)"] tie by simp
  have pts: "tracePoints t = pts"
    using h by (simp add: analyzeTrace_tpoints)
  have "pts \<noteq> []"
    using h by auto
  then have "s = hd pts" "e = last pts"
    using h pts by (simp_all add: analyzeTrace_startPoint analyzeTrace_endPoint)
  then show "direction (analyzeTrace t) = Some ''diagonal''"
    using h pts classify_tie[OF tie] by (simp add: analyzeTrace_direction)
qed

theorem C8_diagonal_on_tie_witness:
  "(tpoints (analyzeTrace (rawTrace ''t2'' ''m1,1 l3,-3''))
      = Some [\<lparr>x = Num 1, y = Num 1\<rparr>, \<lparr>x = Num 4, y = Num (- 2)\<rparr>]
    \<and> 2 \<le> length [\<lparr>x = Num 1, y = Num 1\<rparr>, \<lparr>x = Num 4, y = Num (- 2)\<rparr>]
    \<and> startPoint (analyzeTrace (rawTrace ''t2'' ''m1,1 l3,-3'')) = Some \<lparr>x = Num 1, y = Num 1\<rparr>
    \<and> endPoint (analyzeTrace (rawTrace ''t2'' ''m1,1 l3,-3'')) = Some \<lparr>x = Num 4, y = Num (- 2)\<rparr>
    \<and> Math_abs (jsub (x \<lparr>x = Num 4, y = Num (- 2)\<rparr>) (x \<lparr>x = Num 1, y = Num 1\<rparr>))
        = Math_abs (jsub (y \<lparr>x = Num 4, y = Num (- 2)\<rparr>) (y \<lparr>x = Num 1, y = Num 1\<rparr>)))
   \<and> direction (analyzeTrace (rawTrace ''t2'' ''m1,1 l3,-3'')) = Some ''diagonal''"
proof -
  let ?t = "rawTrace ''t2'' ''m1,1 l3,-3''"
  have h: "tpoints (analyzeTrace ?t) = Some [\<lparr>x = Num 1, y = Num 1\<rparr>, \<lparr>x = Num 4, y = Num (- 2)\<rparr>]
        \<and> 2 \<le> length [\<lparr>x = Num 1, y = Num 1\<rparr>, \<lparr>x = Num 4, y = Num (- 2)\<rparr>]
        \<and> startPoint (analyzeTrace ?t) = Some \<lparr>x = Num 1, y = Num 1\<rparr>
        \<and> endPoint (analyzeTrace ?t) = Some \<lparr>x = Num 4, y = Num (- 2)\<rparr>
        \<and> Math_abs (jsub (x \<lparr>x = Num 4, y = Num (- 2)\<rparr>) (x \<lparr>x = Num 1, y = Num 1\<rparr>))
          = Math_abs (jsub (y \<lparr>x = Num 4, y = Num (- 2)\<rparr>) (y \<lparr>x = Num 1, y = Num 1\<rparr>))"
    by code_simp
  have d: "direction (analyzeTrace ?t) = Some ''diagonal''"
    using C8_diagonal_on_tie[THEN conjunct2, rule_format, OF h] by (rule conjunct2[THEN conjunct2])
  show ?thesis
    by (rule conjI[OF h d])
qed

section \<open>The resolver as a fold\<close>

lemma convertFrom_append:
  "convertFrom st (a @ b) =
     (fst (convertFrom st a) @ fst (convertFrom (snd (convertFrom st a)) b),
      snd (convertFrom (snd (convertFrom st a)) b))"
  by (induction a arbitrary: st) (simp_all add: Let_def)

lemma length_convertFrom: "length (fst (convertFrom st cmds)) = length cmds"
  by (induction cmds arbitrary: st) (simp_all add: Let_def)

lemma convertCommand_unsupported:
  "unsupported cmd \<Longrightarrow> convertCommand st cmd = (emptyResult cmd, st)"
  by (auto simp add: unsupported_def convertCommand_def emptyResult_def Let_def)


lemma take_convert:
  "take (length pre) (convertToAbsoluteCoordinates (pre @ rest)) = convertToAbsoluteCoordinates pre"
  by (simp add: convertToAbsoluteCoordinates_def convertFrom_append[of _ pre] length_convertFrom)

lemma nth_convert:
  "convertToAbsoluteCoordinates (pre @ c # post) ! length pre =
     fst (convertCommand (snd (convertFrom initialState pre)) c)"
  by (simp add: convertToAbsoluteCoordinates_def convertFrom_append[of _ pre] Let_def
      nth_append length_convertFrom)

section \<open>Unsupported commands in the resolver\<close>

text \<open>
  C10. A command whose letter is one of C, S, Q, T, A (either case) is resolved to a
  command with an empty point list and leaves all four state variables as they were.
  So the commands around it resolve exactly as if it were absent: every later relative
  command starts from the cursor reached before the unsupported command.
\<close>

theorem C10_unsupported_command_frame:
  assumes "unsupported cmd"
  shows "convertCommand st cmd = (emptyResult cmd, st)
     \<and> convertToAbsoluteCoordinates (pre @ cmd # post) =
         take (length pre) (convertToAbsoluteCoordinates (pre @ post))
           @ emptyResult cmd # drop (length pre) (convertToAbsoluteCoordinates (pre @ post))"
  using assms
  by (simp add: convertToAbsoluteCoordinates_def convertFrom_append[of _ pre] Let_def
      convertCommand_unsupported length_convertFrom)

theorem C10_unsupported_command_frame_witness:
  "unsupported \<lparr>type = ''c'', points = [\<lparr>x = Num 7, y = Num 7\<rparr>], isRelative = True\<rparr>
   \<and> convertToAbsoluteCoordinates
        [\<lparr>type = ''m'', points = [\<lparr>x = Num 1, y = Num 1\<rparr>], isRelative = True\<rparr>,
         \<lparr>type = ''c'', points = [\<lparr>x = Num 7, y = Num 7\<rparr>], isRelative = True\<rparr>,
         \<lparr>type = ''l'', points = [\<lparr>x = Num 2, y = Num 3\<rparr>], isRelative = True\<rparr>]
      = [\<lparr>type = ''m'', points = [\<lparr>x = Num 1, y = Num 1\<rparr>], isRelative = False\<rparr>,
         \<lparr>type = ''c'', points = [], isRelative = False\<rparr>,
         \<lparr>type = ''l'', points = [\<lparr>x = Num 3, y = Num 4\<rparr>], isRelative = False\<rparr>]"
proof -
  let ?m = "\<lparr>type = ''m'', points = [\<lparr>x = Num 1, y = Num 1\<rparr>], isRelative = True\<rparr>"
  let ?c = "\<lparr>type = ''c'', points = [\<lparr>x = Num 7, y = Num 7\<rparr>], isRelative = True\<rparr>"
  let ?l = "\<lparr>type = ''l'', points = [\<lparr>x = Num 2, y = Num 3\<rparr>], isRelative = True\<rparr>"
  have u: "unsupported ?c"
    by code_simp
  have without: "convertToAbsoluteCoordinates ([?m] @ [?l])
      = [\<lparr>type = ''m'', points = [\<lparr>x = Num 1, y = Num 1\<rparr>], isRelative = False\<rparr>,
         \<lparr>type = ''l'', points = [\<lparr>x = Num 3, y = Num 4\<rparr>], isRelative = False\<rparr>]"
    by code_simp
  have "convertToAbsoluteCoordinates ([?m] @ ?c # [?l]) =
         take (length [?m]) (convertToAbsoluteCoordinates ([?m] @ [?l]))
           @ emptyResult ?c # drop (length [?m]) (convertToAbsoluteCoordinates ([?m] @ [?l]))"
    using C10_unsupported_command_frame[OF u, of initialState "[?m]" "[?l]"] by (rule conjunct2)
  then show ?thesis
    using u without by (simp add: emptyResult_def)
qed

section \<open>Cursor and subpath start\<close>







lemma moveToLoop_length: "length (fst (moveToLoop rel i ps st)) = length ps"
  by (induction ps arbitrary: st i) (simp_all add: Let_def)

lemma moveToLoop_subpath_later:
  "0 < i \<Longrightarrow> subpathStartPoint (snd (moveToLoop rel i ps st)) = subpathStartPoint st"
  by (induction ps arbitrary: st i) (simp_all add: Let_def subpathStartPoint_def)

lemma moveToLoop_subpath_first:
  "subpathStartPoint (snd (moveToLoop rel 0 ps st)) =
     (if ps = [] then subpathStartPoint st else hd (fst (moveToLoop rel 0 ps st)))"
proof (cases ps)
  case Nil
  then show ?thesis by simp
next
  case (Cons p ps')
  then show ?thesis
    by (simp add: Let_def moveToLoop_subpath_later) (simp add: subpathStartPoint_def)
qed

lemma lineToLoop_subpath:
  "subpathStartPoint (snd (lineToLoop rel ps st)) = subpathStartPoint st"
  by (induction ps arbitrary: st) (simp_all add: Let_def subpathStartPoint_def)

lemma horizontalLoop_subpath:
  "subpathStartPoint (snd (horizontalLoop rel ps st)) = subpathStartPoint st"
  by (induction ps arbitrary: st) (simp_all add: Let_def subpathStartPoint_def)

lemma verticalLoop_subpath:
  "subpathStartPoint (snd (verticalLoop rel ps st)) = subpathStartPoint st"
  by (induction ps arbitrary: st) (simp_all add: Let_def subpathStartPoint_def)

lemma convertCommand_type: "type (fst (convertCommand st cmd)) = type cmd"
  by (simp add: convertCommand_def Let_def)

lemma convertCommand_subpath:
  "subpathStartPoint (snd (convertCommand st cmd)) =
     (if isMoveTo (fst (convertCommand st cmd)) \<and> points (fst (convertCommand st cmd)) \<noteq> []
      then hd (points (fst (convertCommand st cmd))) else subpathStartPoint st)"
proof (cases "toUpperCase (type cmd) = ''M''")
  case True
  have "(fst (moveToLoop rel 0 ps st) = []) = (ps = [])" for rel ps
    using moveToLoop_length[of rel 0 ps st] by (metis length_0_conv)
  then show ?thesis
    using True by (simp add: convertCommand_def Let_def isMoveTo_def moveToLoop_subpath_first)
next
  case False
  then show ?thesis
    by (simp add: convertCommand_def Let_def isMoveTo_def lineToLoop_subpath
        horizontalLoop_subpath verticalLoop_subpath) (simp add: subpathStartPoint_def)
qed

lemma convertFrom_subpath:
  "subpathStartPoint (snd (convertFrom st cmds)) =
     moveToStartFrom (subpathStartPoint st) (fst (convertFrom st cmds))"
proof (induction cmds arbitrary: st)
  case Nil
  then show ?case by (simp add: moveToStartFrom_def)
next
  case (Cons c cs)
  show ?case
    using Cons[of "snd (convertCommand st c)"] convertCommand_subpath[of st c]
    by (simp add: Let_def moveToStartFrom_def)
qed

lemma convertCommand_closePath:
  "toUpperCase (type z) = ''Z'' \<Longrightarrow>
   points (fst (convertCommand st z)) = [subpathStartPoint st]
   \<and> cursorPoint (snd (convertCommand st z)) = subpathStartPoint st
   \<and> subpathStartPoint (snd (convertCommand st z)) = subpathStartPoint st"
  by (simp add: convertCommand_def Let_def subpathStartPoint_def cursorPoint_def)

text \<open>
  C6. In every command sequence, a ClosePath command resolves to exactly one point: the
  first resolved point of the most recent MoveTo before it, or (0,0) when there is
  none, whatever commands stand in between. After it the cursor is that point, and
  the subpath start is unchanged.
\<close>

theorem C6_closePath_returns_to_subpath_start:
  assumes "toUpperCase (type z) = ''Z''"
  shows "(let res = convertToAbsoluteCoordinates (pre @ z # post);
              start = moveToStartFrom origin (take (length pre) res)
          in points (res ! length pre) = [start]
             \<and> cursorPoint (snd (convertFrom initialState (pre @ [z]))) = start
             \<and> subpathStartPoint (snd (convertFrom initialState (pre @ [z]))) = start)"
proof -
  let ?st = "snd (convertFrom initialState pre)"
  have s: "subpathStartPoint ?st = moveToStartFrom origin (convertToAbsoluteCoordinates pre)"
    using convertFrom_subpath[of initialState pre]
    by (simp add: convertToAbsoluteCoordinates_def)
       (simp add: subpathStartPoint_def initialState_def origin_def)
  show ?thesis
    using convertCommand_closePath[OF assms, of ?st] s
    by (simp add: Let_def take_convert nth_convert convertFrom_append[of _ pre])
qed

theorem C6_closePath_returns_to_subpath_start_witness:
  "toUpperCase (type \<lparr>type = ''z'', points = [], isRelative = True\<rparr>) = ''Z''
   \<and> moveToStartFrom origin (take 4 (convertToAbsoluteCoordinates
        (parsePathCommands ''M5,5 9,9 L1,2 l3,3 H7 z l1,1''))) = \<lparr>x = Num 5, y = Num 5\<rparr>
   \<and> points (convertToAbsoluteCoordinates (parsePathCommands ''M5,5 9,9 L1,2 l3,3 H7 z l1,1'') ! 4)
       = [\<lparr>x = Num 5, y = Num 5\<rparr>]"
proof -
  let ?z = "\<lparr>type = ''z'', points = [], isRelative = True\<rparr>"
  let ?pre = "parsePathCommands ''M5,5 9,9 L1,2 l3,3 H7''"
  let ?post = "parsePathCommands ''l1,1''"
  have z: "toUpperCase (type ?z) = ''Z''"
    by code_simp
  have p: "?pre @ ?z # ?post = parsePathCommands ''M5,5 9,9 L1,2 l3,3 H7 z l1,1''"
    by code_simp
  have l: "length ?pre = 4"
    by code_simp
  have m: "moveToStartFrom origin (take 4 (convertToAbsoluteCoordinates
        (parsePathCommands ''M5,5 9,9 L1,2 l3,3 H7 z l1,1''))) = \<lparr>x = Num 5, y = Num 5\<rparr>"
    by code_simp
  have "points (convertToAbsoluteCoordinates (?pre @ ?z # ?post) ! length ?pre)
          = [moveToStartFrom origin (take (length ?pre) (convertToAbsoluteCoordinates (?pre @ ?z # ?post)))]"
    using C6_closePath_returns_to_subpath_start[OF z, of ?pre ?post]
    unfolding Let_def by (rule conjunct1)
  then have r: "points (convertToAbsoluteCoordinates
                  (parsePathCommands ''M5,5 9,9 L1,2 l3,3 H7 z l1,1'') ! 4) = [\<lparr>x = Num 5, y = Num 5\<rparr>]"
    unfolding p l m .
  show ?thesis
    by (intro conjI) (rule z, rule m, rule r)
qed

section \<open>Round trip of relative commands\<close>





















section \<open>Unsupported commands in the parser\<close>

lemma parseCommand_takeWhile_append:
  assumes "rest = [] \<or> isCommandLetter (hd rest)"
  shows "takeWhile (\<lambda>d. \<not> isCommandLetter d) (cs @ rest) = takeWhile (\<lambda>d. \<not> isCommandLetter d) cs"
proof (cases "\<forall>d\<in>set cs. \<not> isCommandLetter d")
  case True
  have r: "takeWhile (\<lambda>d. \<not> isCommandLetter d) rest = []"
    using assms by (cases rest) simp_all
  have c: "takeWhile (\<lambda>d. \<not> isCommandLetter d) cs = cs"
    using True by simp
  have "takeWhile (\<lambda>d. \<not> isCommandLetter d) (cs @ rest) = cs @ takeWhile (\<lambda>d. \<not> isCommandLetter d) rest"
    using True by (simp add: takeWhile_append2)
  then show ?thesis
    unfolding r c by simp
next
  case False
  then show ?thesis
    by (auto simp add: takeWhile_append1)
qed

lemma parsePathCommands_append:
  "rest = [] \<or> isCommandLetter (hd rest) \<Longrightarrow>
   parsePathCommands (pre @ rest) = parsePathCommands pre @ parsePathCommands rest"
  by (induction pre) (simp_all add: parseCommand_takeWhile_append)

lemma parsePathCommands_no_letters:
  "list_all (\<lambda>d. \<not> isCommandLetter d) params \<Longrightarrow> parsePathCommands params = []"
  by (induction params) simp_all

lemma unsupported_letter_cases:
  "c \<in> set ''CSQTAcsqta'' \<Longrightarrow>
   c = CHR ''C'' \<or> c = CHR ''S'' \<or> c = CHR ''Q'' \<or> c = CHR ''T'' \<or> c = CHR ''A''
   \<or> c = CHR ''c'' \<or> c = CHR ''s'' \<or> c = CHR ''q'' \<or> c = CHR ''t'' \<or> c = CHR ''a''"
  by simp

lemma parseCommand_upper_unsupported:
  "parseCommand CHR ''C'' params = \<lparr>type = ''C'', points = [], isRelative = False\<rparr>"
  "parseCommand CHR ''S'' params = \<lparr>type = ''S'', points = [], isRelative = False\<rparr>"
  "parseCommand CHR ''Q'' params = \<lparr>type = ''Q'', points = [], isRelative = False\<rparr>"
  "parseCommand CHR ''T'' params = \<lparr>type = ''T'', points = [], isRelative = False\<rparr>"
  "parseCommand CHR ''A'' params = \<lparr>type = ''A'', points = [], isRelative = False\<rparr>"
  by (simp_all add: parseCommand_def Let_def toUpperCase_def toLowerCase_def)

lemma parseCommand_lower_unsupported:
  "parseCommand CHR ''c'' params = \<lparr>type = ''c'', points = [], isRelative = True\<rparr>"
  "parseCommand CHR ''s'' params = \<lparr>type = ''s'', points = [], isRelative = True\<rparr>"
  "parseCommand CHR ''q'' params = \<lparr>type = ''q'', points = [], isRelative = True\<rparr>"
  "parseCommand CHR ''t'' params = \<lparr>type = ''t'', points = [], isRelative = True\<rparr>"
  "parseCommand CHR ''a'' params = \<lparr>type = ''a'', points = [], isRelative = True\<rparr>"
  by (simp_all add: parseCommand_def Let_def toUpperCase_def toLowerCase_def)

lemma parseCommand_unsupported:
  assumes "c \<in> set ''CSQTAcsqta''"
  shows "parseCommand c params = \<lparr>type = [c], points = [], isRelative = (c \<in> set ''csqta'')\<rparr>"
  using unsupported_letter_cases[OF assms]
  by (elim disjE) (simp_all add: parseCommand_upper_unsupported parseCommand_lower_unsupported)

lemma unsupported_isCommandLetter:
  assumes "c \<in> set ''CSQTAcsqta''"
  shows "isCommandLetter c"
  using unsupported_letter_cases[OF assms] by (elim disjE) (simp_all add: isCommandLetter_def)

text \<open>
  C5, as the claim states it, fails: the \<open>switch\<close> of \<open>parsePathCommands\<close> has no
  case for C, S, Q, T or A, so the command keeps the empty point list it was created
  with. In \<open>M0,0 C1,2 3,4 5,6 L7,8\<close> the command \<open>C\<close> is recognised and the \<open>L\<close>
  after it is parsed correctly, but the six parameters of \<open>C\<close> are dropped.
\<close>

theorem C5_parameters_dropped_counterexample:
  "parsePathCommands ''M0,0 C1,2 3,4 5,6 L7,8''
   = [\<lparr>type = ''M'', points = [\<lparr>x = Num 0, y = Num 0\<rparr>], isRelative = False\<rparr>,
      \<lparr>type = ''C'', points = [], isRelative = False\<rparr>,
      \<lparr>type = ''L'', points = [\<lparr>x = Num 7, y = Num 8\<rparr>], isRelative = False\<rparr>]"
  by code_simp

text \<open>
  C5, amended. Every occurrence of an unsupported command letter (C, S, Q, T, A, in
  either case) is recognised as a command: with its parameter text, it contributes
  exactly one command to the output, of that letter, relative when the letter is lower
  case, and with an empty point list (its parameters are not retained). The text before
  it and the commands after it are parsed as they are on their own.
\<close>

theorem C5_unsupported_command_recognised:
  assumes "c \<in> set ''CSQTAcsqta''"
    and "list_all (\<lambda>d. \<not> isCommandLetter d) params"
    and "rest = [] \<or> isCommandLetter (hd rest)"
  shows "parsePathCommands (pre @ c # params @ rest) =
           parsePathCommands pre
             @ \<lparr>type = [c], points = [], isRelative = (c \<in> set ''csqta'')\<rparr>
             # parsePathCommands rest"
proof -
  have "parsePathCommands (pre @ (c # params @ rest))
          = parsePathCommands pre @ parsePathCommands (c # params @ rest)"
    using unsupported_isCommandLetter[OF assms(1)] by (intro parsePathCommands_append) simp
  moreover have "parsePathCommands (params @ rest) = parsePathCommands rest"
    using parsePathCommands_append[OF assms(3), of params] parsePathCommands_no_letters[OF assms(2)]
    by simp
  ultimately show ?thesis
    using unsupported_isCommandLetter[OF assms(1)] parseCommand_unsupported[OF assms(1)]
    by simp
qed

theorem C5_unsupported_command_recognised_witness:
  "CHR ''q'' \<in> set ''CSQTAcsqta''
   \<and> list_all (\<lambda>d. \<not> isCommandLetter d) ''1,1 2,2 ''
   \<and> isCommandLetter (hd ''l3,4'')
   \<and> parsePathCommands (''m1,1 '' @ CHR ''q'' # ''1,1 2,2 '' @ ''l3,4'')
      = parsePathCommands ''m1,1 ''
          @ \<lparr>type = ''q'', points = [], isRelative = True\<rparr> # parsePathCommands ''l3,4''"
proof -
  have h1: "CHR ''q'' \<in> set ''CSQTAcsqta''"
    by code_simp
  have h2: "list_all (\<lambda>d. \<not> isCommandLetter d) ''1,1 2,2 ''"
    by code_simp
  have h3: "isCommandLetter (hd ''l3,4'')"
    by code_simp
  have h3': "''l3,4'' = [] \<or> isCommandLetter (hd ''l3,4'')"
    using h3 by (rule disjI2)
  have r: "(CHR ''q'' \<in> set ''csqta'') = True"
    by code_simp
  have e: "parsePathCommands (''m1,1 '' @ CHR ''q'' # ''1,1 2,2 '' @ ''l3,4'')
      = parsePathCommands ''m1,1 ''
          @ \<lparr>type = ''q'', points = [], isRelative = True\<rparr> # parsePathCommands ''l3,4''"
    using C5_unsupported_command_recognised[OF h1 h2 h3', of "''m1,1 ''"] unfolding r .
  show ?thesis
    by (intro conjI) (rule h1, rule h2, rule h3, rule e)
qed

section \<open>Quantization and the tolerance\<close>









section \<open>The tolerance is never rejected\<close>





section \<open>The connectivity update as a fold over id pairs\<close>

lemma pushConnected_view: "map endpointsView (pushConnected a b ts) = map endpointsView ts"
  by (induction ts) (simp_all add: endpointsView_def split: option.splits)

lemma pushConnected_ids: "map id' (pushConnected a b ts) = map id' ts"
  by (induction ts) (simp_all split: option.splits)

lemma pushConnected_lookup:
  "lookupConnected c (pushConnected a b ts) =
     (if c = a then map_option (\<lambda>cs. if b \<in> set cs then cs else cs @ [b]) (lookupConnected a ts)
      else lookupConnected c ts)"
  by (induction ts) (auto split: option.splits)

lemma pushConnected_noop:
  "lookupConnected a ts = None \<or> (\<exists>cs. lookupConnected a ts = Some cs \<and> b \<in> set cs)
   \<Longrightarrow> pushConnected a b ts = ts"
  by (induction ts) (auto split: option.splits)

lemma pushConnected_defined: "allDefined ts \<Longrightarrow> allDefined (pushConnected a b ts)"
  by (induction ts) (auto simp add: allDefined_def split: option.splits)

lemma foldl_product:
  "foldl (\<lambda>s1 a. foldl (\<lambda>s2 b. f s2 (a, b)) s1 ys) s xs = foldl f s (List.product xs ys)"
proof (induction xs arbitrary: s)
  case Nil
  then show ?case by simp
next
  case (Cons a xs)
  have "foldl f s (map (Pair a) ys) = foldl (\<lambda>s2 b. f s2 (a, b)) s ys"
    by (simp add: foldl_map)
  then show ?case
    using Cons by simp
qed

lemma connectJunction_pairs:
  "connectJunction ts j = foldl connectPair ts (List.product (traceIds j) (traceIds j))"
  by (simp add: connectJunction_def foldl_product)

lemma foldl_connectJunction:
  "foldl connectJunction ts js = foldl connectPair ts (junctionPairs js)"
  by (induction js arbitrary: ts) (simp_all add: junctionPairs_def connectJunction_pairs)

lemma updateTraceConnectivity_pairs:
  "updateTraceConnectivity ts js = foldl connectPair (map initConnected ts) (junctionPairs js)"
  by (simp add: updateTraceConnectivity_def foldl_connectJunction)

lemma appendNew_Nil: "appendNew cs [] = cs"
  by (simp add: appendNew_def)

lemma appendNew_Cons: "appendNew cs (b # bs) = appendNew (if b \<in> set cs then cs else cs @ [b]) bs"
  by (simp add: appendNew_def)

lemma set_appendNew: "set (appendNew cs bs) = set cs \<union> set bs"
  by (induction bs arbitrary: cs) (auto simp add: appendNew_Nil appendNew_Cons)

lemma distinct_appendNew: "distinct cs \<Longrightarrow> distinct (appendNew cs bs)"
  by (induction bs arbitrary: cs) (auto simp add: appendNew_Nil appendNew_Cons)

lemma connectPair_lookup:
  "lookupConnected c (connectPair ts p) =
     map_option (\<lambda>cs. appendNew cs (partners c [p])) (lookupConnected c ts)"
proof (cases p)
  case (Pair a b)
  then show ?thesis
    by (cases "lookupConnected c ts")
       (auto simp add: connectPair_def pushConnected_lookup partners_def appendNew_Nil appendNew_Cons)
qed

lemma partners_Cons: "partners c (p # ps) = partners c [p] @ partners c ps"
  by (auto simp add: partners_def)

lemma appendNew_append: "appendNew cs (as @ bs) = appendNew (appendNew cs as) bs"
  by (simp add: appendNew_def)

lemma connectPairs_lookup:
  "lookupConnected c (foldl connectPair ts ps) =
     map_option (\<lambda>cs. appendNew cs (partners c ps)) (lookupConnected c ts)"
proof (induction ps arbitrary: ts)
  case Nil
  then show ?case
    by (cases "lookupConnected c ts") (simp_all add: partners_def appendNew_Nil)
next
  case (Cons p ps)
  show ?case
    using Cons[of "connectPair ts p"] partners_Cons[of c p ps]
    by (cases "lookupConnected c ts") (simp_all add: connectPair_lookup appendNew_append)
qed

lemma connectPairs_view: "map endpointsView (foldl connectPair ts ps) = map endpointsView ts"
  by (induction ps arbitrary: ts) (simp_all add: connectPair_def pushConnected_view)

lemma connectPairs_defined: "allDefined ts \<Longrightarrow> allDefined (foldl connectPair ts ps)"
  by (induction ps arbitrary: ts) (simp_all add: connectPair_def pushConnected_defined)

lemma initConnected_view: "map endpointsView (map initConnected ts) = map endpointsView ts"
  by (induction ts) (simp_all add: endpointsView_def initConnected_def split: option.splits)

lemma initConnected_defined: "allDefined (map initConnected ts)"
  by (induction ts) (simp_all add: allDefined_def initConnected_def split: option.splits)

lemma initConnected_id: "allDefined ts \<Longrightarrow> map initConnected ts = ts"
  by (induction ts) (auto simp add: allDefined_def initConnected_def)

lemma connectedOf_initConnected: "connectedOf (initConnected t) = connectedOf t"
  by (simp add: connectedOf_def initConnected_def split: option.splits)

lemma id_initConnected: "id' (initConnected t) = id' t"
  by (simp add: initConnected_def split: option.splits)

lemma addEndpoints_view:
  "endpointsView t = endpointsView t' \<Longrightarrow> addEndpoints d m t = addEndpoints d m t'"
  by (simp add: addEndpoints_def endpointsView_def Let_def split: option.splits)

lemma foldl_addEndpoints_view:
  "map endpointsView ts = map endpointsView ts'
   \<Longrightarrow> foldl (addEndpoints d) m ts = foldl (addEndpoints d) m ts'"
proof (induction ts arbitrary: ts' m)
  case Nil
  then show ?case by simp
next
  case (Cons t ts)
  then obtain t' rest where ts': "ts' = t' # rest"
    by (cases ts') auto
  then show ?case
    using Cons.prems Cons.IH[of rest] addEndpoints_view[of t t' d m] by simp
qed

lemma findJunctions_view:
  "map endpointsView ts = map endpointsView ts' \<Longrightarrow> findJunctions ts options = findJunctions ts' options"
  using foldl_addEndpoints_view[of ts ts'] by (simp add: findJunctions_def)

lemma updateTraceConnectivity_view:
  "map endpointsView (updateTraceConnectivity ts js) = map endpointsView ts"
  by (simp only: updateTraceConnectivity_pairs connectPairs_view initConnected_view)

lemma connectPairs_fixed:
  "(\<And>p. p \<in> set ps \<Longrightarrow> connectPair ts p = ts) \<Longrightarrow> foldl connectPair ts ps = ts"
  by (induction ps) simp_all

lemma connectPair_after_pairs:
  assumes "p \<in> set ps"
  shows "connectPair (foldl connectPair ts ps) p = foldl connectPair ts ps"
proof (cases "fst p = snd p")
  case True
  then show ?thesis by (simp add: connectPair_def)
next
  case False
  let ?ts' = "foldl connectPair ts ps"
  have "snd p \<in> set (partners (fst p) ps)"
    using assms False by (force simp add: partners_def)
  then have "lookupConnected (fst p) ?ts' = None
      \<or> (\<exists>cs. lookupConnected (fst p) ?ts' = Some cs \<and> snd p \<in> set cs)"
    by (cases "lookupConnected (fst p) ts") (simp_all add: connectPairs_lookup set_appendNew)
  then show ?thesis
    using False by (simp add: connectPair_def pushConnected_noop)
qed

text \<open>
  C9. Running the builder (junction grouping, then connectivity update) a second time
  on the traces that the first run left, without analysing them again, gives the same
  junctions as the first run, in the same order, and leaves every trace as it is: no
  id is appended twice to a \<open>connectedTraces\<close> list.
\<close>

theorem C9_builder_idempotent:
  "(let ts' = updateTraceConnectivity ts (findJunctions ts options)
    in findJunctions ts' options = findJunctions ts options
       \<and> updateTraceConnectivity ts' (findJunctions ts' options) = ts')"
proof -
  let ?js = "findJunctions ts options"
  let ?ts' = "updateTraceConnectivity ts ?js"
  have j: "findJunctions ?ts' options = ?js"
    by (rule findJunctions_view) (rule updateTraceConnectivity_view)
  have d: "allDefined ?ts'"
    by (simp add: updateTraceConnectivity_pairs connectPairs_defined initConnected_defined)
  have ts': "?ts' = foldl connectPair (map initConnected ts) (junctionPairs ?js)"
    by (rule updateTraceConnectivity_pairs)
  have "foldl connectPair ?ts' (junctionPairs ?js) = ?ts'"
  proof (rule connectPairs_fixed)
    fix p assume "p \<in> set (junctionPairs ?js)"
    then show "connectPair ?ts' p = ?ts'"
      unfolding ts' by (rule connectPair_after_pairs)
  qed
  then have "updateTraceConnectivity ?ts' ?js = ?ts'"
    using d by (simp add: updateTraceConnectivity_pairs[of ?ts'] initConnected_id)
  then show ?thesis
    using j by (simp add: Let_def)
qed

theorem C9_builder_idempotent_witness:
  "(let ts = [analyzeTrace (rawTrace ''a'' ''M0,0 L5,5''), analyzeTrace (rawTrace ''b'' ''M5,5 L9,9'')];
        ts' = updateTraceConnectivity ts (findJunctions ts defaultOptions)
    in map connectedOf ts' = [[''b''], [''a'']]
       \<and> findJunctions ts' defaultOptions = findJunctions ts defaultOptions
       \<and> updateTraceConnectivity ts' (findJunctions ts' defaultOptions) = ts')"
proof -
  let ?ts = "[analyzeTrace (rawTrace ''a'' ''M0,0 L5,5''), analyzeTrace (rawTrace ''b'' ''M5,5 L9,9'')]"
  let ?ts' = "updateTraceConnectivity ?ts (findJunctions ?ts defaultOptions)"
  have v: "map connectedOf ?ts' = [[''b''], [''a'']]"
    by code_simp
  have i: "findJunctions ?ts' defaultOptions = findJunctions ?ts defaultOptions
       \<and> updateTraceConnectivity ?ts' (findJunctions ?ts' defaultOptions) = ?ts'"
    using C9_builder_idempotent[of ?ts defaultOptions] unfolding Let_def .
  show ?thesis
    unfolding Let_def by (rule conjI[OF v i])
qed

section \<open>Symmetry of connectivity\<close>

lemma lookupConnected_distinct:
  "distinct (map id' ts) \<Longrightarrow> t \<in> set ts \<Longrightarrow> lookupConnected (id' t) ts = connectedTraces t"
  by (induction ts) (auto simp add: rev_image_eqI)

lemma connectPairs_ids: "map id' (foldl connectPair ts ps) = map id' ts"
  by (induction ps arbitrary: ts) (simp_all add: connectPair_def pushConnected_ids)

lemma initConnected_ids: "map id' (map initConnected ts) = map id' ts"
  by (induction ts) (simp_all add: id_initConnected)

lemma updateTraceConnectivity_ids: "map id' (updateTraceConnectivity ts js) = map id' ts"
  by (simp only: updateTraceConnectivity_pairs connectPairs_ids initConnected_ids)

lemma partners_mem: "b \<in> set (partners a ps) \<longleftrightarrow> (a, b) \<in> set ps \<and> a \<noteq> b"
  by (force simp add: partners_def)

lemma junctionPairs_sym: "(a, b) \<in> set (junctionPairs js) \<longleftrightarrow> (b, a) \<in> set (junctionPairs js)"
  by (auto simp add: junctionPairs_def)

lemma result_connectedOf:
  assumes "distinct (map id' ts)" and "A \<in> set (updateTraceConnectivity ts js)"
  shows "\<exists>A0\<in>set ts. id' A0 = id' A
           \<and> connectedOf A = appendNew (connectedOf A0) (partners (id' A) (junctionPairs js))"
proof -
  let ?ts0 = "map initConnected ts" and ?ts' = "updateTraceConnectivity ts js"
  have d': "distinct (map id' ?ts')"
    using assms(1) by (simp only: updateTraceConnectivity_ids)
  have d0: "distinct (map id' ?ts0)"
    using assms(1) by (simp only: initConnected_ids)
  have "id' A \<in> set (map id' ?ts')"
    using assms(2) by simp
  then have "id' A \<in> set (map id' ts)"
    by (simp only: updateTraceConnectivity_ids)
  then obtain A0 where A0: "A0 \<in> set ts" "id' A0 = id' A"
    by auto
  have "lookupConnected (id' A) ?ts0 = connectedTraces (initConnected A0)"
    using lookupConnected_distinct[OF d0, of "initConnected A0"] A0 by (simp add: id_initConnected)
  then have l0: "lookupConnected (id' A) ?ts0 = Some (connectedOf A0)"
    by (simp add: initConnected_def connectedOf_def split: option.splits)
  have "connectedTraces A = lookupConnected (id' A) ?ts'"
    using lookupConnected_distinct[OF d' assms(2)] by simp
  then have "connectedTraces A = Some (appendNew (connectedOf A0) (partners (id' A) (junctionPairs js)))"
    using l0 by (simp add: updateTraceConnectivity_pairs connectPairs_lookup)
  then show ?thesis
    using A0 by (auto simp add: connectedOf_def)
qed

text \<open>
  C2. Take traces with pairwise distinct ids whose connectivity is symmetric and free
  of duplicates, as it is for freshly analysed traces (their lists are empty) and after
  every earlier run. After the connectivity update with any junction list, in
  particular the one \<open>findJunctions\<close> returns for these traces, connectivity is
  symmetric: for all traces A and B of the sequence, the id of A is in the list of B if
  and only if the id of B is in the list of A; and no list holds an id twice.
\<close>

theorem C2_connectivity_symmetric_duplicate_free:
  assumes "distinct (map id' ts)" and "symmetricConnectivity ts" and "duplicateFree ts"
  shows "symmetricConnectivity (updateTraceConnectivity ts js)
         \<and> duplicateFree (updateTraceConnectivity ts js)"
proof
  show "symmetricConnectivity (updateTraceConnectivity ts js)"
    unfolding symmetricConnectivity_def
  proof (intro ballI)
    fix A B
    assume A: "A \<in> set (updateTraceConnectivity ts js)" and B: "B \<in> set (updateTraceConnectivity ts js)"
    obtain A0 where A0: "A0 \<in> set ts" "id' A0 = id' A"
      "connectedOf A = appendNew (connectedOf A0) (partners (id' A) (junctionPairs js))"
      using result_connectedOf[OF assms(1) A] by blast
    obtain B0 where B0: "B0 \<in> set ts" "id' B0 = id' B"
      "connectedOf B = appendNew (connectedOf B0) (partners (id' B) (junctionPairs js))"
      using result_connectedOf[OF assms(1) B] by blast
    have s: "(id' A \<in> set (connectedOf B0)) = (id' B \<in> set (connectedOf A0))"
      using assms(2) A0 B0 unfolding symmetricConnectivity_def by metis
    have p: "(id' A \<in> set (partners (id' B) (junctionPairs js)))
           = (id' B \<in> set (partners (id' A) (junctionPairs js)))"
      using junctionPairs_sym[of "id' A" "id' B" js] by (auto simp add: partners_mem)
    show "(id' A \<in> set (connectedOf B)) = (id' B \<in> set (connectedOf A))"
      using s p by (simp add: A0(3) B0(3) set_appendNew)
  qed
  show "duplicateFree (updateTraceConnectivity ts js)"
    unfolding duplicateFree_def
  proof
    fix A assume A: "A \<in> set (updateTraceConnectivity ts js)"
    obtain A0 where A0: "A0 \<in> set ts"
      "connectedOf A = appendNew (connectedOf A0) (partners (id' A) (junctionPairs js))"
      using result_connectedOf[OF assms(1) A] by blast
    have "distinct (connectedOf A0)"
      using assms(3) A0(1) by (simp add: duplicateFree_def)
    then show "distinct (connectedOf A)"
      by (simp add: A0(2) distinct_appendNew)
  qed
qed

theorem C2_connectivity_symmetric_duplicate_free_witness:
  "(let ts = [analyzeTrace (rawTrace ''a'' ''M0,0 L5,5''), analyzeTrace (rawTrace ''b'' ''M5,5 L9,9''),
              analyzeTrace (rawTrace ''c'' ''M5,5 L0,9'')];
        ts' = updateTraceConnectivity ts (findJunctions ts defaultOptions)
    in (distinct (map id' ts) \<and> symmetricConnectivity ts \<and> duplicateFree ts)
       \<and> map connectedOf ts' = [[''b'', ''c''], [''a'', ''c''], [''a'', ''b'']]
       \<and> symmetricConnectivity ts' \<and> duplicateFree ts')"
proof -
  let ?ts = "[analyzeTrace (rawTrace ''a'' ''M0,0 L5,5''), analyzeTrace (rawTrace ''b'' ''M5,5 L9,9''),
              analyzeTrace (rawTrace ''c'' ''M5,5 L0,9'')]"
  let ?ts' = "updateTraceConnectivity ?ts (findJunctions ?ts defaultOptions)"
  have h1: "distinct (map id' ?ts)"
    by code_simp
  have h2: "symmetricConnectivity ?ts"
    by code_simp
  have h3: "duplicateFree ?ts"
    by code_simp
  have v: "map connectedOf ?ts' = [[''b'', ''c''], [''a'', ''c''], [''a'', ''b'']]"
    by code_simp
  have r: "symmetricConnectivity ?ts' \<and> duplicateFree ?ts'"
    by (rule C2_connectivity_symmetric_duplicate_free[OF h1 h2 h3])
  show ?thesis
    unfolding Let_def by (intro conjI) (rule h1, rule h2, rule h3, rule v, rule r[THEN conjunct1], rule r[THEN conjunct2])
qed

end
